theory Spec2Isabelle
  imports Complex_Main "HOL-Library.Multiset" "HOL-Library.AList"
begin

section \<open>Data model\<close>

text \<open>
  The module \<^verbatim>\<open>scona/make_corr_matrices.py\<close> works on pandas data frames. A frame is
  modelled as the ordered list of its labelled columns. A column carries its dtype in its
  constructor: \<open>NumCol\<close> is a column whose dtype is a subtype of \<^verbatim>\<open>numpy.number\<close>
  (finite values, as reals), \<open>ObjCol\<close> is a column of dtype \<^verbatim>\<open>object\<close>, whose cells
  are numbers, strings or the missing-value marker.

  Exceptions are values: every \<^verbatim>\<open>raise\<close> of the source, and every exception of a
  library call that the source lets through, is an \<open>Inl\<close> result.
\<close>

datatype error =
    TypeError string
  | ValueError string
  | KeyError "string list"
  | IndexError string
  | FileNotFoundError string
  | FileExistsError string
  | NotADirectoryError string
  | IsADirectoryError string

datatype cell = Num real | Str string | NaN

datatype column = NumCol "real list" | ObjCol "cell list"

type_synonym frame = "(string \<times> column) list"

fun is_numeric :: "column \<Rightarrow> bool" where
  "is_numeric (NumCol xs) = True"
| "is_numeric (ObjCol cs) = False"

fun col_len :: "column \<Rightarrow> nat" where
  "col_len (NumCol xs) = length xs"
| "col_len (ObjCol cs) = length cs"

definition columns :: "frame \<Rightarrow> string list" where
  "columns df = map fst df"

text \<open>
  pandas keeps every column of a frame at the same length, and the data model of the
  specification has one column per name.
\<close>

definition nrows :: "frame \<Rightarrow> nat" where
  "nrows df = (case df of [] \<Rightarrow> 0 | (n, c) # rest \<Rightarrow> col_len c)"

definition wf_frame :: "frame \<Rightarrow> bool" where
  "wf_frame df \<longleftrightarrow> distinct (columns df) \<and> list_all (\<lambda>p. col_len (snd p) = nrows df) df"

definition bind :: "error + 'a \<Rightarrow> ('a \<Rightarrow> error + 'b) \<Rightarrow> error + 'b" where
  "bind r f = (case r of Inl e \<Rightarrow> Inl e | Inr v \<Rightarrow> f v)"

text \<open>\<^verbatim>\<open>df[names]\<close>: the columns labelled by \<open>names\<close>, in that order; a label that is
  not a column raises \<^verbatim>\<open>KeyError\<close> with the missing labels.\<close>

definition getitem_cols :: "frame \<Rightarrow> string list \<Rightarrow> error + frame" where
  "getitem_cols df names =
     (let missing = filter (\<lambda>n. n \<notin> set (columns df)) names
      in if missing \<noteq> [] then Inl (KeyError missing)
         else Inr (concat (map (\<lambda>n. filter (\<lambda>p. fst p = n) df) names)))"

text \<open>\<^verbatim>\<open>df.loc[:, name]\<close>: one column.\<close>

definition loc_col :: "frame \<Rightarrow> string \<Rightarrow> error + column" where
  "loc_col df name = (case map_of df name of None \<Rightarrow> Inl (KeyError [name]) | Some c \<Rightarrow> Inr c)"

section \<open>Validation\<close>

text \<open>\<^verbatim>\<open>get_non_numeric_cols\<close>: the labels of the columns whose dtype is not numeric,
  as an array.\<close>

definition get_non_numeric_cols :: "frame \<Rightarrow> string list" where
  "get_non_numeric_cols df = map fst (filter (\<lambda>p. \<not> is_numeric (snd p)) df)"

text \<open>
  Both callers test the returned array with \<^verbatim>\<open>if non_numeric_cols:\<close>. The truth value
  of a numpy array is that of its only element when it has one (a label is a string, true
  when it is not empty), false for an empty array (as in the numpy releases the module was
  written for, where it is deprecated), and a \<^verbatim>\<open>ValueError\<close> for an array of two or
  more elements.
\<close>

fun array_truth :: "string list \<Rightarrow> error + bool" where
  "array_truth [] = Inr False"
| "array_truth [c] = Inr (c \<noteq> [])"
| "array_truth (c # d # cs) =
     Inl (ValueError ''The truth value of an array with more than one element is ambiguous. Use a.any() or a.all()'')"

fun join :: "string \<Rightarrow> string list \<Rightarrow> string" where
  "join sep [] = []"
| "join sep [x] = x"
| "join sep (x # y # ys) = x @ sep @ join sep (y # ys)"

definition non_numeric_message :: "string list \<Rightarrow> string" where
  "non_numeric_message cols = ''DataFrame columns '' @ join '', '' cols @ '' are non numeric''"

definition check_numeric :: "frame \<Rightarrow> error + unit" where
  "check_numeric df =
     (let non_numeric_cols = get_non_numeric_cols df
      in bind (array_truth non_numeric_cols)
           (\<lambda>t. if t then Inl (TypeError (non_numeric_message non_numeric_cols)) else Inr ()))"

section \<open>Residual correction\<close>

text \<open>
  Modelled from the spec: \<^verbatim>\<open>residuals\<close> of \<^verbatim>\<open>scona.stats_functions\<close> is imported by the
  module but is not among the sources. The specification gives it as
  \<open>residual = observed - X \<cdot> (X\<^sup>+ \<cdot> observed)\<close> for a design matrix \<open>X\<close> with one row per
  participant. The least-squares solve \<open>X\<^sup>+ \<cdot> observed\<close> is numpy's and is a parameter.
\<close>

type_synonym matrix = "real list list"

type_synonym lstsq = "matrix \<Rightarrow> real list \<Rightarrow> real list"

definition dot :: "real list \<Rightarrow> real list \<Rightarrow> real" where
  "dot xs ys = sum_list (map2 (*) xs ys)"

definition residuals :: "lstsq \<Rightarrow> matrix \<Rightarrow> real list \<Rightarrow> real list" where
  "residuals solve X y = map2 (\<lambda>obs row. obs - dot row (solve X y)) y X"

text \<open>The numeric routines take numeric data; a column of objects is refused.\<close>

fun num_values :: "column \<Rightarrow> error + real list" where
  "num_values (NumCol xs) = Inr xs"
| "num_values (ObjCol cs) = Inl (TypeError ''object data in a numeric routine'')"

fun num_values_all :: "frame \<Rightarrow> error + real list list" where
  "num_values_all [] = Inr []"
| "num_values_all (p # ps) =
     bind (num_values (snd p)) (\<lambda>xs. bind (num_values_all ps) (\<lambda>xss. Inr (xs # xss)))"

text \<open>The rows of the matrix whose columns are the given ones.\<close>

fun hstack :: "real list list \<Rightarrow> matrix" where
  "hstack [] = []"
| "hstack [c] = map (\<lambda>v. [v]) c"
| "hstack (c # d # cs) = map2 (#) c (hstack (d # cs))"

text \<open>
  The design matrix of \<^verbatim>\<open>create_residuals_df\<close>: the covariate columns when there are
  covariates (\<^verbatim>\<open>np.vstack([df[covars]])\<close> for several, \<^verbatim>\<open>df[covars]\<close> for one), and
  \<^verbatim>\<open>np.ones_like(df.iloc[:, 0])\<close>, a one for every row of the first column of the
  frame, when there are none; \<^verbatim>\<open>iloc\<close> raises \<^verbatim>\<open>IndexError\<close> on a frame without
  columns. The element type of the vector of ones is not tracked.
\<close>

definition design_matrix :: "frame \<Rightarrow> string list \<Rightarrow> error + matrix" where
  "design_matrix df covars =
     (if length covars > 1 then
        bind (getitem_cols df covars) (\<lambda>sel. bind (num_values_all sel) (\<lambda>cs. Inr (hstack cs)))
      else if length covars = 1 then
        bind (getitem_cols df covars) (\<lambda>sel. bind (num_values_all sel) (\<lambda>cs. Inr (hstack cs)))
      else
        (case df of
           [] \<Rightarrow> Inl (IndexError ''single positional indexer is out-of-bounds'')
         | p # rest \<Rightarrow> Inr (hstack [replicate (col_len (snd p)) 1])))"

text \<open>\<^verbatim>\<open>df_res.loc[:, name] = values\<close>: every column labelled \<open>name\<close> takes the values;
  pandas refuses values of another length.\<close>

definition set_loc :: "frame \<Rightarrow> string \<Rightarrow> real list \<Rightarrow> error + frame" where
  "set_loc df_res name vs =
     (if length vs \<noteq> nrows df_res then Inl (ValueError ''Length of values does not match length of index'')
      else Inr (map (\<lambda>p. if fst p = name then (fst p, NumCol vs) else p) df_res))"

fun residuals_loop :: "lstsq \<Rightarrow> matrix \<Rightarrow> frame \<Rightarrow> string list \<Rightarrow> frame \<Rightarrow> error + frame" where
  "residuals_loop solve x df [] df_res = Inr df_res"
| "residuals_loop solve x df (name # rest) df_res =
     bind (loc_col df name) (\<lambda>c.
     bind (num_values c) (\<lambda>y.
     bind (set_loc df_res name (residuals solve x y)) (\<lambda>df_res'.
     residuals_loop solve x df rest df_res')))"

text \<open>
  \<^verbatim>\<open>create_residuals_df(df, names, covars=[])\<close>. The argument \<open>covars\<close> is whatever the
  caller passes, and \<^verbatim>\<open>corrmat_from_regionalmeasures\<close> passes \<^verbatim>\<open>None\<close> by default:
  \<open>None\<close> here is Python's \<^verbatim>\<open>None\<close>, on which \<^verbatim>\<open>names+covars\<close> raises.
\<close>

definition concat_error :: string where
  \<open>concat_error = ''can only concatenate list (not "NoneType") to list''\<close>

definition create_residuals_df ::
    "lstsq \<Rightarrow> frame \<Rightarrow> string list \<Rightarrow> string list option \<Rightarrow> error + frame" where
  "create_residuals_df solve df names covars =
     (case covars of
        None \<Rightarrow> Inl (TypeError concat_error)
      | Some cv \<Rightarrow>
          bind (getitem_cols df (names @ cv)) (\<lambda>requested.
          bind (check_numeric requested) (\<lambda>u.
          bind (getitem_cols df names) (\<lambda>df_res.
          bind (design_matrix df cv) (\<lambda>x.
          residuals_loop solve x df names df_res)))))"

text \<open>
  The precondition of the corrections: every requested label is a column of numeric dtype.
  \<open>the_values\<close> reads the values of such a column.
\<close>

definition numeric_in :: "frame \<Rightarrow> string list \<Rightarrow> bool" where
  "numeric_in df ns = list_all (\<lambda>n. case map_of df n of Some (NumCol xs) \<Rightarrow> True | _ \<Rightarrow> False) ns"

definition the_values :: "frame \<Rightarrow> string \<Rightarrow> real list" where
  "the_values df n = (case map_of df n of Some (NumCol xs) \<Rightarrow> xs | _ \<Rightarrow> [])"

section \<open>Correlation matrix\<close>

text \<open>
  \<^verbatim>\<open>DataFrame.astype(float).corr(method=method)\<close> is pandas' and is a parameter of
  \<^verbatim>\<open>create_corrmat\<close>: it takes the method and the selected columns and gives the matrix
  of coefficients or raises.
\<close>

type_synonym 'm corr = "string \<Rightarrow> frame \<Rightarrow> error + 'm"

definition create_corrmat ::
    "'m corr \<Rightarrow> frame \<Rightarrow> string list option \<Rightarrow> string \<Rightarrow> error + (string list \<times> 'm)" where
  "create_corrmat pd_corr df_res names method =
     (let names' = (case names of None \<Rightarrow> columns df_res | Some ns \<Rightarrow> ns)
      in bind (check_numeric df_res) (\<lambda>u.
         bind (getitem_cols df_res names') (\<lambda>sel.
         bind (pd_corr method sel) (\<lambda>m. Inr (columns sel, m)))))"

definition corrmat_from_regionalmeasures ::
    "lstsq \<Rightarrow> 'm corr \<Rightarrow> frame \<Rightarrow> string list \<Rightarrow> string list option \<Rightarrow> string \<Rightarrow> error + 'm" where
  "corrmat_from_regionalmeasures solve pd_corr regional_measures names covars method =
     bind (create_residuals_df solve regional_measures names covars) (\<lambda>df_res.
     bind (create_corrmat pd_corr df_res (Some names) method) (\<lambda>M. Inr (snd M)))"

text \<open>
  Modelled from the spec: \<^verbatim>\<open>DataFrame.corr\<close> is pandas' and is not among the sources. The
  specification (4.2) has it compute the correlation coefficient of the chosen method,
  Pearson, Spearman or Kendall, for every ordered pair of the selected columns, an entry
  being undefined (not a number, here \<open>None\<close>) when a column has zero variance. The
  coefficients are the documented ones over finite values: Pearson's is the covariance
  over the product of the standard deviations, Spearman's is Pearson's on the ranks (ties
  take the average rank), Kendall's is tau-b, the concordant minus the discordant pairs
  over the root of the product of the numbers of pairs untied in each column. Any other
  method is refused.
\<close>

definition mean :: "real list \<Rightarrow> real" where
  "mean xs = sum_list xs / real (length xs)"

definition cov :: "real list \<Rightarrow> real list \<Rightarrow> real" where
  "cov xs ys = sum_list (map2 (\<lambda>x y. (x - mean xs) * (y - mean ys)) xs ys)"

definition variance :: "real list \<Rightarrow> real" where
  "variance xs = cov xs xs / (real (length xs) - 1)"

definition pearson :: "real list \<Rightarrow> real list \<Rightarrow> real option" where
  "pearson xs ys =
     (if cov xs xs = 0 \<or> cov ys ys = 0 then None
      else Some (cov xs ys / (sqrt (cov xs xs) * sqrt (cov ys ys))))"

definition rank :: "real list \<Rightarrow> real \<Rightarrow> real" where
  "rank xs x = real (length (filter (\<lambda>y. y < x) xs)) + (real (length (filter (\<lambda>y. y = x) xs)) + 1) / 2"

definition ranks :: "real list \<Rightarrow> real list" where
  "ranks xs = map (rank xs) xs"

definition spearman :: "real list \<Rightarrow> real list \<Rightarrow> real option" where
  "spearman xs ys = pearson (ranks xs) (ranks ys)"

fun all_pairs :: "'a list \<Rightarrow> ('a \<times> 'a) list" where
  "all_pairs [] = []"
| "all_pairs (z # zs) = map (Pair z) zs @ all_pairs zs"

definition concordance :: "(real \<times> real) list \<Rightarrow> real" where
  "concordance zs =
     sum_list (map (\<lambda>p. sgn (fst (fst p) - fst (snd p)) * sgn (snd (fst p) - snd (snd p))) (all_pairs zs))"

definition untied :: "real list \<Rightarrow> real" where
  "untied xs = sum_list (map (\<lambda>p. sgn (fst p - snd p) * sgn (fst p - snd p)) (all_pairs xs))"

definition kendall :: "real list \<Rightarrow> real list \<Rightarrow> real option" where
  "kendall xs ys =
     (if untied xs = 0 \<or> untied ys = 0 then None
      else Some (concordance (zip xs ys) / sqrt (untied xs * untied ys)))"

type_synonym corr_matrix = "real option list list"

definition coefficient :: "string \<Rightarrow> (real list \<Rightarrow> real list \<Rightarrow> real option) option" where
  "coefficient method =
     (if method = ''pearson'' then Some pearson
      else if method = ''kendall'' then Some kendall
      else if method = ''spearman'' then Some spearman
      else None)"

definition pandas_corr :: "corr_matrix corr" where
  "pandas_corr method sel =
     bind (num_values_all sel) (\<lambda>cols.
       case coefficient method of
         None \<Rightarrow> Inl (ValueError ''method must be either pearson, spearman, kendall, or a callable'')
       | Some coef \<Rightarrow> Inr (map (\<lambda>x. map (coef x) cols) cols))"

section \<open>Group partitioner\<close>

text \<open>
  \<^verbatim>\<open>.values\<close> of a column: its cells. Comparison of cells is pandas' \<^verbatim>\<open>==\<close>, under
  which the missing-value marker equals nothing, itself included.
\<close>

fun col_values :: "column \<Rightarrow> cell list" where
  "col_values (NumCol xs) = map Num xs"
| "col_values (ObjCol cs) = cs"

definition cell_eq :: "cell \<Rightarrow> cell \<Rightarrow> bool" where
  "cell_eq a b \<longleftrightarrow> a \<noteq> NaN \<and> b \<noteq> NaN \<and> a = b"

text \<open>
  \<^verbatim>\<open>'{}_{}'.format(group_var, value)\<close>. A string is rendered as it is and the missing-value
  marker as \<^verbatim>\<open>nan\<close>; how Python renders a number (\<^verbatim>\<open>0\<close>, \<^verbatim>\<open>1.0\<close>) is the parameter
  \<open>fmt\<close>. \<open>format_whole\<close> is the rendering of a whole number of an integer column.
\<close>

definition digit_char :: "nat \<Rightarrow> char" where
  "digit_char d = ''0123456789'' ! (d mod 10)"

fun format_nat :: "nat \<Rightarrow> string" where
  "format_nat n = (if n < 10 then [digit_char n] else format_nat (n div 10) @ [digit_char (n mod 10)])"

declare format_nat.simps [simp del]

definition format_int :: "int \<Rightarrow> string" where
  "format_int i = (if i < 0 then ''-'' @ format_nat (nat (- i)) else format_nat (nat i))"

definition format_whole :: "real \<Rightarrow> string" where
  "format_whole r = format_int \<lfloor>r\<rfloor>"

fun py_format :: "(real \<Rightarrow> string) \<Rightarrow> cell \<Rightarrow> string" where
  "py_format fmt (Num r) = fmt r"
| "py_format fmt (Str s) = s"
| "py_format fmt NaN = ''nan''"

definition format_key :: "(real \<Rightarrow> string) \<Rightarrow> string \<Rightarrow> cell \<Rightarrow> string" where
  "format_key fmt group_var v = group_var @ ''_'' @ py_format fmt v"

text \<open>\<^verbatim>\<open>df[group_var] == value\<close> and \<^verbatim>\<open>df.loc[mask, :]\<close>: the rows at which the mask
  holds, of every column.\<close>

definition eq_mask :: "column \<Rightarrow> cell \<Rightarrow> bool list" where
  "eq_mask c v = map (\<lambda>u. cell_eq u v) (col_values c)"

definition select :: "bool list \<Rightarrow> 'a list \<Rightarrow> 'a list" where
  "select msk xs = map snd (filter fst (zip msk xs))"

fun select_col :: "bool list \<Rightarrow> column \<Rightarrow> column" where
  "select_col msk (NumCol xs) = NumCol (select msk xs)"
| "select_col msk (ObjCol cs) = ObjCol (select msk cs)"

definition loc_rows :: "bool list \<Rightarrow> frame \<Rightarrow> frame" where
  "loc_rows msk df = map (\<lambda>p. (fst p, select_col msk (snd p))) df"

text \<open>
  \<^verbatim>\<open>np.random.permutation(values)\<close> draws from the process-wide generator. The draw is
  made explicit: \<open>rng\<close> is the order in which the generator takes the positions of the
  array, a permutation of \<open>[0..<n]\<close>.
\<close>

definition permutation :: "nat list \<Rightarrow> 'a list \<Rightarrow> 'a list" where
  "permutation rng xs = map (\<lambda>i. xs ! i) rng"

fun permutation_col :: "nat list \<Rightarrow> column \<Rightarrow> column" where
  "permutation_col rng (NumCol xs) = NumCol (permutation rng xs)"
| "permutation_col rng (ObjCol cs) = ObjCol (permutation rng cs)"

definition is_permutation :: "nat list \<Rightarrow> nat \<Rightarrow> bool" where
  "is_permutation rng n \<longleftrightarrow> sort rng = [0..<n]"

text \<open>\<^verbatim>\<open>df[name] = column\<close> changes the frame it is applied to: the column replaces the
  one of that label, or is added after the last column.\<close>

definition setitem :: "frame \<Rightarrow> string \<Rightarrow> column \<Rightarrow> frame" where
  "setitem df name c =
     (if name \<in> set (columns df) then map (\<lambda>p. if fst p = name then (name, c) else p) df
      else df @ [(name, c)])"

text \<open>\<^verbatim>\<open>df.drop(columns=labels)\<close> returns a new frame without the columns and leaves
  \<open>df\<close> as it is.\<close>

definition drop_columns :: "frame \<Rightarrow> string list \<Rightarrow> error + frame" where
  "drop_columns df labels =
     (let missing = filter (\<lambda>n. n \<notin> set (columns df)) labels
      in if missing \<noteq> [] then Inl (KeyError missing)
         else Inr (filter (\<lambda>p. fst p \<notin> set labels) df))"

text \<open>
  The loop of \<^verbatim>\<open>split_groups\<close> over \<^verbatim>\<open>set(df.loc[:, group_var].values)\<close>. The dictionary
  is an association list in insertion order; a key stored twice keeps its place and takes
  the later value. The order in which Python iterates over the set is not fixed; the
  model takes the distinct values in the order of the column.
\<close>

definition partition_by ::
    "(real \<Rightarrow> string) \<Rightarrow> frame \<Rightarrow> string \<Rightarrow> column \<Rightarrow> (string \<times> frame) list" where
  "partition_by fmt df group_var c =
     fold (\<lambda>v split_dict.
             AList.update (format_key fmt group_var v) (loc_rows (eq_mask c v) df) split_dict)
       (remdups (col_values c)) []"

text \<open>
  \<^verbatim>\<open>split_groups(df, group_var, shuffle=False)\<close>. The frame \<open>df\<close> is the caller's object
  and the function assigns to it, so the result is the dictionary together with the
  caller's frame as the call leaves it. The frame returned by \<^verbatim>\<open>df.drop\<close> at the end is
  not bound to anything.
\<close>

definition split_groups ::
    "(real \<Rightarrow> string) \<Rightarrow> nat list \<Rightarrow> frame \<Rightarrow> string \<Rightarrow> bool
       \<Rightarrow> error + frame \<times> (string \<times> frame) list" where
  "split_groups fmt rng df group_var shuffle =
     bind (if shuffle then
             bind (loc_col df group_var) (\<lambda>c.
               Inr (setitem df (group_var @ ''_rand'') (permutation_col rng c),
                    group_var @ ''_rand''))
           else Inr (df, group_var)) (\<lambda>st.
     bind (loc_col (fst st) (snd st)) (\<lambda>c.
     bind (if shuffle then
             bind (drop_columns (fst st) [group_var @ ''_rand'']) (\<lambda>dropped. Inr ())
           else Inr ()) (\<lambda>u.
     Inr (fst st, partition_by fmt (fst st) (snd st) c))))"

section \<open>Matrix persistence\<close>

text \<open>
  \<^verbatim>\<open>save_mat\<close> acts on the file system through \<^verbatim>\<open>os.path.dirname\<close>,
  \<^verbatim>\<open>os.path.isdir\<close>, \<^verbatim>\<open>os.makedirs\<close> and \<^verbatim>\<open>np.savetxt\<close>. The file system is an
  explicit state: the current directory, and the directories and the files that exist,
  each under its key, the list of its components from the root. The root, the current
  directory and the directories above it exist. An operation returns the exception it
  raises, if any, and the file system as it leaves it. Links and permissions are not
  modelled.
\<close>

datatype content = Plain string | Compressed string

type_synonym path_key = "string list"

record filesystem =
  cwd :: path_key
  dirs :: "path_key list"
  files :: "(path_key \<times> content) list"

text \<open>
  Paths are POSIX paths. The components of a path are the parts between its slashes,
  empty parts dropped. A path is resolved from the root when it begins with a slash and
  from the current directory otherwise, one component after the other: \<^verbatim>\<open>.\<close> stays,
  \<^verbatim>\<open>..\<close> goes to the directory above (the root is above itself), a name goes below.
  Every component is looked up in a directory that exists: resolution fails in a file
  (\<^verbatim>\<open>NotADirectoryError\<close>) and in a place where nothing is (\<^verbatim>\<open>FileNotFoundError\<close>).
  The empty path names nothing.
\<close>

fun split_on :: "char \<Rightarrow> string \<Rightarrow> string list" where
  "split_on s [] = [[]]"
| "split_on s (c # cs) =
     (if c = s then [] # split_on s cs
      else (case split_on s cs of [] \<Rightarrow> [[c]] | x # xs \<Rightarrow> (c # x) # xs))"

definition components :: "string \<Rightarrow> string list" where
  "components p = filter (\<lambda>c. c \<noteq> []) (split_on CHR ''/'' p)"

definition start :: "filesystem \<Rightarrow> string \<Rightarrow> path_key" where
  "start fs p = (case p of [] \<Rightarrow> cwd fs | c # cs \<Rightarrow> if c = CHR ''/'' then [] else cwd fs)"

definition step :: "path_key \<Rightarrow> string \<Rightarrow> path_key" where
  "step k c = (if c = ''.'' then k else if c = ''..'' then butlast k else k @ [c])"

definition isdir_key :: "filesystem \<Rightarrow> path_key \<Rightarrow> bool" where
  "isdir_key fs k \<longleftrightarrow> take (length k) (cwd fs) = k \<or> k \<in> set (dirs fs)"

definition isfile_key :: "filesystem \<Rightarrow> path_key \<Rightarrow> bool" where
  "isfile_key fs k \<longleftrightarrow> map_of (files fs) k \<noteq> None"

fun walk :: "filesystem \<Rightarrow> string \<Rightarrow> path_key \<Rightarrow> string list \<Rightarrow> error + path_key" where
  "walk fs name k [] = Inr k"
| "walk fs name k (c # cs) =
     (if isfile_key fs k then Inl (NotADirectoryError name)
      else if \<not> isdir_key fs k then Inl (FileNotFoundError name)
      else walk fs name (step k c) cs)"

definition lookup :: "filesystem \<Rightarrow> string \<Rightarrow> error + path_key" where
  "lookup fs p =
     (if p = [] then Inl (FileNotFoundError p) else walk fs p (start fs p) (components p))"

text \<open>\<^verbatim>\<open>os.path.isdir\<close> and \<^verbatim>\<open>os.path.exists\<close>: false when the path does not resolve; a
  file is not reached through a path that ends in a slash.\<close>

definition os_path_isdir :: "filesystem \<Rightarrow> string \<Rightarrow> bool" where
  "os_path_isdir fs p = (case lookup fs p of Inl e \<Rightarrow> False | Inr k \<Rightarrow> isdir_key fs k)"

definition os_path_exists :: "filesystem \<Rightarrow> string \<Rightarrow> bool" where
  "os_path_exists fs p =
     (case lookup fs p of
        Inl e \<Rightarrow> False
      | Inr k \<Rightarrow> isdir_key fs k \<or> (isfile_key fs k \<and> last p \<noteq> CHR ''/''))"

text \<open>
  \<^verbatim>\<open>os.path.split\<close> cuts a path at its last slash: \<^verbatim>\<open>os.path.dirname\<close> is the part
  before it, without trailing slashes unless it consists of slashes only, and
  \<^verbatim>\<open>os.path.basename\<close> the part after it. The directory part of a path without a slash
  is empty.
\<close>

definition rstrip :: "char \<Rightarrow> string \<Rightarrow> string" where
  "rstrip s p = rev (dropWhile (\<lambda>c. c = s) (rev p))"

definition os_path_dirname :: "string \<Rightarrow> string" where
  "os_path_dirname p =
     (let head = rev (dropWhile (\<lambda>c. c \<noteq> CHR ''/'') (rev p))
      in if head \<noteq> [] \<and> head \<noteq> replicate (length head) CHR ''/'' then rstrip CHR ''/'' head
         else head)"

definition os_path_basename :: "string \<Rightarrow> string" where
  "os_path_basename p = rev (takeWhile (\<lambda>c. c \<noteq> CHR ''/'') (rev p))"

text \<open>
  \<^verbatim>\<open>os.mkdir\<close> makes one directory in a directory that exists. It raises
  \<^verbatim>\<open>FileExistsError\<close> where something exists already, which is so for every path that
  ends in \<^verbatim>\<open>.\<close> or \<^verbatim>\<open>..\<close>.
\<close>

definition os_mkdir :: "filesystem \<Rightarrow> string \<Rightarrow> error option \<times> filesystem" where
  "os_mkdir fs name =
     (if name = [] then (Some (FileNotFoundError name), fs)
      else if components name = [] then (Some (FileExistsError name), fs)
      else
        (case walk fs name (start fs name) (butlast (components name)) of
           Inl e \<Rightarrow> (Some e, fs)
         | Inr parent \<Rightarrow>
             if isfile_key fs parent then (Some (NotADirectoryError name), fs)
             else if \<not> isdir_key fs parent then (Some (FileNotFoundError name), fs)
             else if last (components name) = ''.'' \<or> last (components name) = ''..''
               then (Some (FileExistsError name), fs)
             else if isdir_key fs (step parent (last (components name)))
                     \<or> isfile_key fs (step parent (last (components name)))
               then (Some (FileExistsError name), fs)
             else (None, fs\<lparr>dirs := dirs fs @ [step parent (last (components name))]\<rparr>)))"

text \<open>
  \<^verbatim>\<open>os.makedirs(name)\<close> as the standard library defines it: the path is split into
  head and tail (once more when the tail is empty); when both are non-empty and the head
  does not exist, the head is made first, by recursion, a \<^verbatim>\<open>FileExistsError\<close> of which
  is passed over, and nothing more is made when the tail is \<^verbatim>\<open>.\<close>; then \<^verbatim>\<open>os.mkdir\<close>
  makes the directory itself, and its exception is raised.
\<close>

definition makedirs_head :: "string \<Rightarrow> string" where
  "makedirs_head name =
     (if os_path_basename name = [] then os_path_dirname (os_path_dirname name)
      else os_path_dirname name)"

definition makedirs_tail :: "string \<Rightarrow> string" where
  "makedirs_tail name =
     (if os_path_basename name = [] then os_path_basename (os_path_dirname name)
      else os_path_basename name)"

fun passes :: "error option \<Rightarrow> bool" where
  "passes None = True"
| "passes (Some (FileExistsError n)) = True"
| "passes (Some e) = False"

definition after_head ::
    "error option \<times> filesystem \<Rightarrow> string \<Rightarrow> error option \<times> filesystem" where
  "after_head made name =
     (if passes (fst made) then
        (if makedirs_tail name = ''.'' then (None, snd made) else os_mkdir (snd made) name)
      else made)"

function os_makedirs :: "filesystem \<Rightarrow> string \<Rightarrow> error option \<times> filesystem" where
  "os_makedirs fs name =
     (if makedirs_head name \<noteq> [] \<and> makedirs_tail name \<noteq> []
         \<and> \<not> os_path_exists fs (makedirs_head name)
      then after_head (os_makedirs fs (makedirs_head name)) name
      else os_mkdir fs name)"
  by pat_completeness auto
termination
proof (relation "measure (\<lambda>(fs, name). length name)")
  show "wf (measure (\<lambda>(fs, name). length name))" by simp
next
  fix fs :: filesystem and name :: string
  assume "makedirs_head name \<noteq> [] \<and> makedirs_tail name \<noteq> []
            \<and> \<not> os_path_exists fs (makedirs_head name)"
  then have t: "makedirs_tail name \<noteq> []" by simp
  have db: "length (os_path_dirname p) + length (os_path_basename p) \<le> length p" for p
  proof -
    let ?h = "rev (dropWhile (\<lambda>c. c \<noteq> CHR ''/'') (rev p))"
    have "length (rstrip CHR ''/'' ?h) \<le> length ?h"
      using length_dropWhile_le[of "\<lambda>c. c = CHR ''/''" "rev ?h"] by (simp add: rstrip_def)
    then have "length (os_path_dirname p) \<le> length ?h"
      by (simp add: os_path_dirname_def Let_def)
    moreover have "length (dropWhile (\<lambda>c. c \<noteq> CHR ''/'') (rev p))
           + length (takeWhile (\<lambda>c. c \<noteq> CHR ''/'') (rev p)) = length (rev p)"
      by (metis add.commute length_append takeWhile_dropWhile_id)
    then have "length ?h + length (os_path_basename p) = length p"
      by (simp add: os_path_basename_def)
    ultimately show ?thesis by linarith
  qed
  have "length (makedirs_head name) < length name"
  proof (cases "os_path_basename name = []")
    case True
    then have "0 < length (os_path_basename (os_path_dirname name))"
      using t by (simp add: makedirs_tail_def)
    then have "length (os_path_dirname (os_path_dirname name)) < length (os_path_dirname name)"
      using db[of "os_path_dirname name"] by linarith
    moreover have "length (os_path_dirname name) \<le> length name" using db[of name] by linarith
    ultimately show ?thesis using True by (simp add: makedirs_head_def)
  next
    case False
    then have "0 < length (os_path_basename name)" by simp
    then have "length (os_path_dirname name) < length name" using db[of name] by linarith
    then show ?thesis using False by (simp add: makedirs_head_def)
  qed
  then show "((fs, makedirs_head name), fs, name) \<in> measure (\<lambda>(fs, name). length name)" by simp
qed

declare os_makedirs.simps [simp del]

text \<open>
  The format \<^verbatim>\<open>%.5f\<close> of a finite number: the value rounded to five decimals, ties to
  the even neighbour, written with its sign, its integer part and five fractional digits.
  Entries of a matrix are finite numbers, as reals; \<^verbatim>\<open>nan\<close> and \<^verbatim>\<open>inf\<close> are not
  modelled.
\<close>

definition tab :: string where
  "tab = [CHR 0x09]"

definition newline :: string where
  "newline = [CHR 0x0A]"

definition round_half_even :: "real \<Rightarrow> int" where
  "round_half_even x =
     (let f = \<lfloor>x\<rfloor>; d = x - of_int f
      in if d < 1 / 2 then f else if 1 / 2 < d then f + 1 else if even f then f else f + 1)"

definition digits5 :: "nat \<Rightarrow> string" where
  "digits5 k = map (\<lambda>p. digit_char (k div p)) [10000, 1000, 100, 10, 1]"

definition fmt_5f :: "real \<Rightarrow> string" where
  "fmt_5f x =
     (let n = nat (round_half_even (\<bar>x\<bar> * 100000))
      in (if x < 0 then ''-'' else []) @ format_nat (n div 100000) @ ''.'' @ digits5 (n mod 100000))"

text \<open>
  \<^verbatim>\<open>np.savetxt(name, M, fmt='%.5f', delimiter='\t', newline='\n')\<close> writes, for every
  row, its entries in the format joined by the delimiter, and the newline. It opens the
  file for writing: that fails on the empty path, where the directory of the file does
  not resolve or does not exist, and on a path that names a directory; a file that exists
  is replaced. A name with one of the suffixes \<^verbatim>\<open>.gz\<close>, \<^verbatim>\<open>.bz2\<close>, \<^verbatim>\<open>.xz\<close>,
  \<^verbatim>\<open>.lzma\<close> is written compressed.
\<close>

definition savetxt_text :: "matrix \<Rightarrow> string" where
  "savetxt_text M = concat (map (\<lambda>row. join tab (map fmt_5f row) @ newline) M)"

definition ends_with :: "string \<Rightarrow> string \<Rightarrow> bool" where
  "ends_with suffix s \<longleftrightarrow> length suffix \<le> length s \<and> drop (length s - length suffix) s = suffix"

definition compressed_name :: "string \<Rightarrow> bool" where
  "compressed_name name \<longleftrightarrow>
     ends_with ''.gz'' name \<or> ends_with ''.bz2'' name \<or> ends_with ''.xz'' name \<or> ends_with ''.lzma'' name"

definition open_w :: "filesystem \<Rightarrow> string \<Rightarrow> content \<Rightarrow> error option \<times> filesystem" where
  "open_w fs name text =
     (if name = [] then (Some (FileNotFoundError name), fs)
      else if components name = [] then (Some (IsADirectoryError name), fs)
      else
        (case walk fs name (start fs name) (butlast (components name)) of
           Inl e \<Rightarrow> (Some e, fs)
         | Inr parent \<Rightarrow>
             if isfile_key fs parent then (Some (NotADirectoryError name), fs)
             else if \<not> isdir_key fs parent then (Some (FileNotFoundError name), fs)
             else if last (components name) = ''.'' \<or> last (components name) = ''..''
                     \<or> last name = CHR ''/''
                     \<or> isdir_key fs (step parent (last (components name)))
               then (Some (IsADirectoryError name), fs)
             else (None, fs\<lparr>files :=
                     AList.update (step parent (last (components name))) text (files fs)\<rparr>)))"

definition np_savetxt :: "filesystem \<Rightarrow> string \<Rightarrow> matrix \<Rightarrow> error option \<times> filesystem" where
  "np_savetxt fs name M =
     open_w fs name ((if compressed_name name then Compressed else Plain) (savetxt_text M))"

text \<open>\<^verbatim>\<open>save_mat(M, name)\<close>, the same in \<^verbatim>\<open>scona/make_corr_matrices.py\<close> and in
  \<^verbatim>\<open>BrainNetworksInPython/scripts/make_corr_matrices.py\<close>.\<close>

definition save_mat :: "filesystem \<Rightarrow> matrix \<Rightarrow> string \<Rightarrow> error option \<times> filesystem" where
  "save_mat fs M name =
     (let dirname = os_path_dirname name;
          made = (if \<not> os_path_isdir fs dirname then os_makedirs fs dirname else (None, fs))
      in case fst made of
           Some e \<Rightarrow> (Some e, snd made)
         | None \<Rightarrow> np_savetxt (snd made) name M)"

section \<open>Properties\<close>

subsection \<open>Selecting numeric columns\<close>

lemma filter_label_distinct:
  "distinct (map fst df) \<Longrightarrow> map_of df n = Some c \<Longrightarrow> filter (\<lambda>p. fst p = n) df = [(n, c)]"
proof (induction df)
  case Nil
  then show ?case by simp
next
  case (Cons p ps)
  show ?case
  proof (cases "fst p = n")
    case True
    then have "snd p = c" using Cons.prems(2) by (cases p) simp
    moreover have "filter (\<lambda>q. fst q = n) ps = []"
    proof -
      have "n \<notin> fst ` set ps" using Cons.prems(1) True by auto
      then have "\<forall>q \<in> set ps. fst q \<noteq> n" by force
      then show ?thesis by (simp add: filter_empty_conv)
    qed
    ultimately show ?thesis using True by (cases p) simp
  next
    case False
    then show ?thesis using Cons by (cases p) auto
  qed
qed

lemma numeric_in_lookup:
  "numeric_in df ns \<Longrightarrow> n \<in> set ns \<Longrightarrow> map_of df n = Some (NumCol (the_values df n))"
  by (auto simp: numeric_in_def the_values_def list_all_iff split: option.splits column.splits)

lemma numeric_in_columns:
  "numeric_in df ns \<Longrightarrow> n \<in> set ns \<Longrightarrow> n \<in> set (columns df)"
  using numeric_in_lookup[of df ns n] by (auto simp: columns_def dest: map_of_SomeD intro: rev_image_eqI)

lemma getitem_cols_numeric:
  assumes "distinct (columns df)" "numeric_in df ns"
  shows "getitem_cols df ns = Inr (map (\<lambda>n. (n, NumCol (the_values df n))) ns)"
proof -
  have "filter (\<lambda>n. n \<notin> set (columns df)) ns = []"
    using assms(2) by (auto simp: filter_empty_conv dest: numeric_in_columns)
  moreover have "concat (map (\<lambda>n. filter (\<lambda>p. fst p = n) df) ns) = map (\<lambda>n. (n, NumCol (the_values df n))) ns"
  proof -
    have "\<And>n. n \<in> set ns \<Longrightarrow> filter (\<lambda>p. fst p = n) df = [(n, NumCol (the_values df n))]"
      using assms by (simp add: filter_label_distinct numeric_in_lookup columns_def)
    then show ?thesis by (induction ns) simp_all
  qed
  ultimately show ?thesis by (simp add: getitem_cols_def)
qed



lemma num_values_all_numeric:
  "num_values_all (map (\<lambda>n. (n, NumCol (f n))) ns) = Inr (map f ns)"
  by (induction ns) (simp_all add: bind_def)








subsection \<open>Dictionaries, masks and permutations\<close>

lemma update_fresh: "k \<notin> fst ` set d \<Longrightarrow> AList.update k v d = d @ [(k, v)]"
  by (induction d) auto

lemma fold_update_distinct:
  "distinct (map k vs) \<Longrightarrow> k ` set vs \<inter> fst ` set d = {} \<Longrightarrow>
   fold (\<lambda>v acc. AList.update (k v) (f v) acc) vs d = d @ map (\<lambda>v. (k v, f v)) vs"
proof (induction vs arbitrary: d)
  case Nil
  then show ?case by simp
next
  case (Cons v vs)
  have fresh: "k v \<notin> fst ` set d" using Cons.prems(2) by auto
  have d: "distinct (map k vs)" using Cons.prems(1) by simp
  have "k ` set vs \<inter> fst ` set (d @ [(k v, f v)]) = {}"
    using Cons.prems by auto
  from Cons.IH[OF d this] show ?case by (simp add: update_fresh[OF fresh])
qed

lemma map_of_keyed:
  "inj_on k (set vs) \<Longrightarrow> v \<in> set vs \<Longrightarrow> map_of (map (\<lambda>v. (k v, f v)) vs) (k v) = Some (f v)"
  by (induction vs) (auto simp: inj_on_def)

lemma inj_on_format_key:
  "inj_on (py_format fmt) A \<Longrightarrow> inj_on (format_key fmt g) A"
  by (auto simp: inj_on_def format_key_def)

lemma eq_mask_plain:
  "NaN \<notin> set (col_values c) \<Longrightarrow> v \<in> set (col_values c) \<Longrightarrow>
   eq_mask c v = map (\<lambda>u. u = v) (col_values c)"
  by (auto simp: eq_mask_def cell_eq_def)

lemma length_select: "length msk = length xs \<Longrightarrow> length (select msk xs) = length (filter id msk)"
  unfolding select_def
  by (induction msk xs rule: list_induct2) auto

lemma col_len_values: "length (col_values c) = col_len c"
  by (cases c) auto

lemma col_len_select_col:
  "length msk = col_len c \<Longrightarrow> col_len (select_col msk c) = length (filter id msk)"
  by (cases c) (auto simp: length_select)

lemma nrows_loc_rows:
  "df \<noteq> [] \<Longrightarrow> length msk = nrows df \<Longrightarrow> nrows (loc_rows msk df) = length (filter id msk)"
  by (cases df) (auto simp: nrows_def loc_rows_def col_len_select_col split: prod.splits)

lemma sum_counts: "sum_list (map (\<lambda>v. length (filter (\<lambda>u. u = v) xs)) (remdups xs)) = length xs"
proof -
  have "sum_list (map (\<lambda>v. length (filter (\<lambda>u. u = v) xs)) (remdups xs))
        = (\<Sum>v \<in> set xs. length (filter (\<lambda>u. u = v) xs))"
    by (simp add: sum_list_distinct_conv_sum_set)
  also have "\<dots> = (\<Sum>v \<in> set xs. count_list xs v)"
    by (intro sum.cong refl) (simp add: count_list_eq_length_filter eq_commute)
  also have "\<dots> = length xs"
    by (simp add: sum_count_set)
  finally show ?thesis .
qed

lemma length_filter_id_map: "length (filter id (map P xs)) = length (filter P xs)"
  by (induction xs) auto

lemma mset_permutation:
  assumes "mset rng = mset [0..<length xs]"
  shows "mset (permutation rng xs) = mset xs"
proof -
  have "mset (permutation rng xs) = image_mset ((!) xs) (mset rng)"
    by (simp add: permutation_def)
  also have "\<dots> = mset (map ((!) xs) [0..<length xs])" using assms by simp
  also have "\<dots> = mset xs" by (simp add: map_nth)
  finally show ?thesis .
qed

subsection \<open>Paths and files\<close>

lemma dirname_bare: "CHR ''/'' \<notin> set name \<Longrightarrow> os_path_dirname name = []"
proof -
  assume "CHR ''/'' \<notin> set name"
  then have "dropWhile (\<lambda>c. c \<noteq> CHR ''/'') (rev name) = []"
    by (auto simp: dropWhile_eq_Nil_conv)
  then show ?thesis by (simp add: os_path_dirname_def)
qed

lemma makedirs_empty: "os_makedirs fs [] = (Some (FileNotFoundError []), fs)"
  by (subst os_makedirs.simps)
     (simp add: makedirs_head_def makedirs_tail_def os_path_basename_def os_path_dirname_def os_mkdir_def)

lemma example_text:
  "savetxt_text [[1, 1 / 2], [1 / 2, 1]]
     = ''1.00000'' @ tab @ ''0.50000'' @ newline @ ''0.50000'' @ tab @ ''1.00000'' @ newline"
  by (simp add: savetxt_text_def fmt_5f_def round_half_even_def digits5_def digit_char_def
        format_nat.simps)

lemma example_dirs:
  "os_makedirs \<lparr>cwd = [''home''], dirs = [], files = []\<rparr> ''out/subdir''
     = (None, \<lparr>cwd = [''home''], dirs = [[''home'', ''out''], [''home'', ''out'', ''subdir'']], files = []\<rparr>)"
  by (simp add: os_makedirs.simps makedirs_head_def makedirs_tail_def os_path_basename_def
        os_path_dirname_def rstrip_def os_path_exists_def lookup_def start_def components_def
        step_def isdir_key_def isfile_key_def after_head_def os_mkdir_def)

text \<open>
  A path through \<^verbatim>\<open>..\<close>: \<^verbatim>\<open>os.makedirs\<close> makes the directories below it and then
  raises, since the path itself names a directory that exists; and a path that ends in
  \<^verbatim>\<open>..\<close> cannot be opened for writing.
\<close>

lemma save_mat_dotdot:
  "save_mat \<lparr>cwd = [''home''], dirs = [], files = []\<rparr> [[1, 1 / 2], [1 / 2, 1]] ''a/b/../m.txt''
     = (Some (FileExistsError ''a/b/..''),
        \<lparr>cwd = [''home''], dirs = [[''home'', ''a''], [''home'', ''a'', ''b'']], files = []\<rparr>)"
  and "np_savetxt \<lparr>cwd = [''home''], dirs = [[''home'', ''out'']], files = []\<rparr> ''out/..'' [[1, 1 / 2], [1 / 2, 1]]
     = (Some (IsADirectoryError ''out/..''), \<lparr>cwd = [''home''], dirs = [[''home'', ''out'']], files = []\<rparr>)"
  by (simp_all add: save_mat_def os_path_isdir_def os_makedirs.simps makedirs_head_def makedirs_tail_def
        os_path_basename_def os_path_dirname_def rstrip_def os_path_exists_def lookup_def start_def
        components_def step_def isdir_key_def isfile_key_def after_head_def os_mkdir_def
        np_savetxt_def open_w_def Let_def)

subsection \<open>Correlation coefficients\<close>

lemma cov_commute: "cov xs ys = cov ys xs"
proof -
  have "map2 (\<lambda>x y. (x - m) * (y - n)) us vs = map2 (\<lambda>y x. (y - n) * (x - m)) vs us"
    for m n :: real and us vs
    by (induction us vs rule: list_induct2') (simp_all add: mult.commute)
  then show ?thesis by (simp only: cov_def)
qed

lemma pearson_commute: "pearson xs ys = pearson ys xs"
  by (auto simp: pearson_def cov_commute[of xs ys] mult.commute)

lemma cov_self: "cov xs xs = sum_list (map (\<lambda>x. (x - mean xs) * (x - mean xs)) xs)"
proof -
  have "map2 (\<lambda>x y. (x - mean xs) * (y - mean xs)) ys ys = map (\<lambda>x. (x - mean xs) * (x - mean xs)) ys" for ys
    by (induction ys) simp_all
  then show ?thesis by (simp add: cov_def)
qed

lemma cov_self_nonneg: "0 \<le> cov xs xs"
  unfolding cov_self by (rule sum_list_nonneg) auto

lemma pearson_self: "cov xs xs \<noteq> 0 \<Longrightarrow> pearson xs xs = Some 1"
proof -
  assume n: "cov xs xs \<noteq> 0"
  have "sqrt (cov xs xs) * sqrt (cov xs xs) = cov xs xs"
    using cov_self_nonneg[of xs] by simp
  then show ?thesis using n by (simp add: pearson_def)
qed

lemma cov_self_zero_const:
  assumes "cov xs xs = 0" "x \<in> set xs"
  shows "x = mean xs"
proof -
  have "\<forall>v \<in> set (map (\<lambda>x. (x - mean xs) * (x - mean xs)) xs). v = 0"
    using assms(1) unfolding cov_self
    by (subst (asm) sum_list_nonneg_eq_0_iff) auto
  then have "(x - mean xs) * (x - mean xs) = 0" using assms(2) by auto
  then show ?thesis by simp
qed

lemma variance_nonzero: "variance xs \<noteq> 0 \<Longrightarrow> cov xs xs \<noteq> 0"
  by (auto simp: variance_def)

lemma const_cov_zero:
  assumes "\<forall>x \<in> set xs. x = c"
  shows "cov xs xs = 0"
proof (cases "xs = []")
  case True
  then show ?thesis by (simp add: cov_def)
next
  case False
  have xs: "xs = replicate (length xs) c" using assms by (simp add: replicate_length_same)
  have "sum_list xs = real (length xs) * c"
    by (subst xs) (simp add: sum_list_replicate)
  then have m: "mean xs = c" using False by (simp add: mean_def)
  have "\<forall>x \<in> set xs. (x - mean xs) * (x - mean xs) = 0" using assms m by simp
  then have "map (\<lambda>x. (x - mean xs) * (x - mean xs)) xs = map (\<lambda>x. 0) xs" by simp
  then show ?thesis unfolding cov_self by (simp only:) simp
qed

lemma cov_nonzero_two_values:
  assumes "cov xs xs \<noteq> 0"
  shows "\<exists>a \<in> set xs. \<exists>b \<in> set xs. a < b"
proof (rule ccontr)
  assume "\<not> (\<exists>a \<in> set xs. \<exists>b \<in> set xs. a < b)"
  then have le: "\<forall>a \<in> set xs. \<forall>b \<in> set xs. \<not> a < b" by blast
  have "\<forall>x \<in> set xs. x = hd xs"
  proof
    fix x assume x: "x \<in> set xs"
    then have "hd xs \<in> set xs" by (cases xs) auto
    then show "x = hd xs" using le x by (metis not_less_iff_gr_or_eq)
  qed
  then have "cov xs xs = 0" by (rule const_cov_zero)
  then show False using assms by simp
qed

lemma filter_less_subset:
  fixes xs :: "real list"
  assumes "a < b"
  shows "length (filter (\<lambda>y. y < a) xs) + length (filter (\<lambda>y. y = a) xs) \<le> length (filter (\<lambda>y. y < b) xs)"
  using assms by (induction xs) auto

lemma rank_mono:
  assumes "a < b" "a \<in> set xs"
  shows "rank xs a < rank xs b"
proof -
  let ?la = "length (filter (\<lambda>y. y < a) xs)" and ?ea = "length (filter (\<lambda>y. y = a) xs)"
  let ?lb = "length (filter (\<lambda>y. y < b) xs)" and ?eb = "length (filter (\<lambda>y. y = b) xs)"
  have 1: "real ?la + real ?ea \<le> real ?lb" using filter_less_subset[OF assms(1), of xs] by linarith
  have "filter (\<lambda>y. y = a) xs \<noteq> []" using assms(2) by (auto simp: filter_empty_conv)
  then have 2: "1 \<le> real ?ea" by (cases "filter (\<lambda>y. y = a) xs") auto
  have 3: "0 \<le> real ?eb" by simp
  define la ea lb eb where "la = real ?la" and "ea = real ?ea" and "lb = real ?lb" and "eb = real ?eb"
  have r: "rank xs a = la + (ea + 1) / 2" "rank xs b = lb + (eb + 1) / 2"
    by (simp_all only: rank_def la_def ea_def lb_def eb_def)
  have "la + ea \<le> lb" "1 \<le> ea" "0 \<le> eb"
    using 1 2 3 by (simp_all only: la_def ea_def lb_def eb_def)
  then have "la + (ea + 1) / 2 < lb + (eb + 1) / 2" by argo
  then show ?thesis by (simp only: r)
qed

lemma ranks_spread: "cov xs xs \<noteq> 0 \<Longrightarrow> cov (ranks xs) (ranks xs) \<noteq> 0"
proof
  assume n: "cov xs xs \<noteq> 0" and z: "cov (ranks xs) (ranks xs) = 0"
  obtain a b where a: "a \<in> set xs" and b: "b \<in> set xs" and ab: "a < b"
    using cov_nonzero_two_values[OF n] by blast
  have "rank xs a \<in> set (ranks xs)" "rank xs b \<in> set (ranks xs)"
    using a b by (simp_all add: ranks_def)
  then have "rank xs a = mean (ranks xs)" "rank xs b = mean (ranks xs)"
    using cov_self_zero_const[OF z] by blast+
  then show False using rank_mono[OF ab a] by simp
qed

lemma spearman_commute: "spearman xs ys = spearman ys xs"
  by (simp add: spearman_def pearson_commute[of "ranks xs"])

lemma spearman_self: "cov xs xs \<noteq> 0 \<Longrightarrow> spearman xs xs = Some 1"
  by (simp add: spearman_def pearson_self ranks_spread)

lemma all_pairs_map: "all_pairs (map f zs) = map (map_prod f f) (all_pairs zs)"
  by (induction zs) simp_all

lemma zip_swap: "zip ys xs = map prod.swap (zip xs ys)"
  by (induction xs ys rule: list_induct2') simp_all

lemma concordance_swap: "concordance (zip ys xs) = concordance (zip xs ys)"
proof -
  let ?g = "\<lambda>p::(real \<times> real) \<times> (real \<times> real).
              sgn (fst (fst p) - fst (snd p)) * sgn (snd (fst p) - snd (snd p))"
  have g: "?g (map_prod prod.swap prod.swap p) = ?g p" for p
    by (cases p) (simp add: mult.commute)
  have "all_pairs (zip ys xs) = map (map_prod prod.swap prod.swap) (all_pairs (zip xs ys))"
    by (simp only: zip_swap[of ys xs] all_pairs_map)
  then have "map ?g (all_pairs (zip ys xs)) = map (\<lambda>p. ?g (map_prod prod.swap prod.swap p)) (all_pairs (zip xs ys))"
    by (simp only: map_map comp_def)
  also have "\<dots> = map ?g (all_pairs (zip xs ys))"
    by (simp only: g)
  finally show ?thesis by (simp only: concordance_def)
qed

lemma kendall_commute: "kendall xs ys = kendall ys xs"
proof -
  have c: "concordance (zip ys xs) = concordance (zip xs ys)" by (rule concordance_swap)
  have m: "untied ys * untied xs = untied xs * untied ys" by (rule mult.commute)
  show ?thesis unfolding kendall_def c m by auto
qed

lemma untied_nonneg: "0 \<le> untied xs"
  unfolding untied_def by (rule sum_list_nonneg) auto

lemma concordance_self: "concordance (zip xs xs) = untied xs"
proof -
  have "zip xs xs = map (\<lambda>x. (x, x)) xs" by (induction xs) simp_all
  then have "all_pairs (zip xs xs) = map (map_prod (\<lambda>x. (x, x)) (\<lambda>x. (x, x))) (all_pairs xs)"
    by (simp only: all_pairs_map)
  then show ?thesis by (simp add: concordance_def untied_def comp_def)
qed

lemma kendall_self: "untied xs \<noteq> 0 \<Longrightarrow> kendall xs xs = Some 1"
proof -
  assume n: "untied xs \<noteq> 0"
  then have "0 < untied xs" using untied_nonneg[of xs] by simp
  then have "sqrt (untied xs * untied xs) = untied xs" by simp
  then show ?thesis using n by (simp add: kendall_def concordance_self)
qed

lemma all_pairs_mem:
  "a \<in> set xs \<Longrightarrow> b \<in> set xs \<Longrightarrow> a \<noteq> b \<Longrightarrow> (a, b) \<in> set (all_pairs xs) \<or> (b, a) \<in> set (all_pairs xs)"
proof (induction xs)
  case Nil
  then show ?case by simp
next
  case (Cons x xs)
  have s: "set (all_pairs (x # xs)) = Pair x ` set xs \<union> set (all_pairs xs)" by simp
  consider "a = x" | "b = x" | "a \<noteq> x" "b \<noteq> x" by blast
  then show ?case
  proof cases
    case 1
    then have "b \<in> set xs" using Cons.prems by auto
    then have "(a, b) \<in> Pair x ` set xs" using 1 by blast
    then show ?thesis unfolding s by blast
  next
    case 2
    then have "a \<in> set xs" using Cons.prems by auto
    then have "(b, a) \<in> Pair x ` set xs" using 2 by blast
    then show ?thesis unfolding s by blast
  next
    case 3
    then have "a \<in> set xs" "b \<in> set xs" using Cons.prems by auto
    then have "(a, b) \<in> set (all_pairs xs) \<or> (b, a) \<in> set (all_pairs xs)"
      using Cons.IH Cons.prems(3) by blast
    then show ?thesis unfolding s by blast
  qed
qed

lemma untied_spread: "cov xs xs \<noteq> 0 \<Longrightarrow> untied xs \<noteq> 0"
proof
  assume n: "cov xs xs \<noteq> 0" and z: "untied xs = 0"
  obtain a b where a: "a \<in> set xs" and b: "b \<in> set xs" and ab: "a < b"
    using cov_nonzero_two_values[OF n] by blast
  have "a \<noteq> b" using ab by simp
  then have "(a, b) \<in> set (all_pairs xs) \<or> (b, a) \<in> set (all_pairs xs)"
    using a b by (rule all_pairs_mem[rotated 2])
  then obtain p where p: "p \<in> set (all_pairs xs)" and d: "fst p \<noteq> snd p"
    using \<open>a \<noteq> b\<close> by (metis fst_conv snd_conv)
  have "\<forall>v \<in> set (map (\<lambda>p. sgn (fst p - snd p) * sgn (fst p - snd p)) (all_pairs xs)). v = 0"
    using z unfolding untied_def by (subst (asm) sum_list_nonneg_eq_0_iff) auto
  then have "sgn (fst p - snd p) * sgn (fst p - snd p) = 0" using p by auto
  then show False using d by (simp add: sgn_zero_iff)
qed

lemma coefficient_props:
  assumes "method = ''pearson'' \<or> method = ''spearman'' \<or> method = ''kendall''"
  shows "\<exists>coef. coefficient method = Some coef \<and> (\<forall>x y. coef x y = coef y x)
           \<and> (\<forall>x. variance x \<noteq> 0 \<longrightarrow> coef x x = Some 1)"
proof -
  consider "method = ''pearson''" | "method = ''spearman''" | "method = ''kendall''"
    using assms by blast
  then show ?thesis
  proof cases
    case 1
    have "coefficient method = Some pearson" using 1 by (simp add: coefficient_def)
    moreover have "\<forall>x y. pearson x y = pearson y x" using pearson_commute by blast
    moreover have "\<forall>x. variance x \<noteq> 0 \<longrightarrow> pearson x x = Some 1"
      using pearson_self variance_nonzero by blast
    ultimately show ?thesis by blast
  next
    case 2
    have "coefficient method = Some spearman" using 2 by (simp add: coefficient_def)
    moreover have "\<forall>x y. spearman x y = spearman y x" using spearman_commute by blast
    moreover have "\<forall>x. variance x \<noteq> 0 \<longrightarrow> spearman x x = Some 1"
      using spearman_self variance_nonzero by blast
    ultimately show ?thesis by blast
  next
    case 3
    have "coefficient method = Some kendall" using 3 by (simp add: coefficient_def)
    moreover have "\<forall>x y. kendall x y = kendall y x" using kendall_commute by blast
    moreover have "\<forall>x. variance x \<noteq> 0 \<longrightarrow> kendall x x = Some 1"
      using kendall_self untied_spread variance_nonzero by blast
    ultimately show ?thesis by blast
  qed
qed

lemma all_numeric_check:
  "list_all (\<lambda>p. is_numeric (snd p)) df \<Longrightarrow> check_numeric df = Inr ()"
  by (simp add: check_numeric_def get_non_numeric_cols_def bind_def filter_empty_conv list_all_iff)

lemma all_numeric_in:
  assumes "list_all (\<lambda>p. is_numeric (snd p)) df" "set ns \<subseteq> set (columns df)"
  shows "numeric_in df ns"
proof -
  have "\<And>n. n \<in> set ns \<Longrightarrow> (case map_of df n of Some (NumCol xs) \<Rightarrow> True | _ \<Rightarrow> False)"
  proof -
    fix n assume "n \<in> set ns"
    then have "n \<in> fst ` set df" using assms(2) by (auto simp: columns_def)
    then obtain c where c: "map_of df n = Some c"
      by (metis map_of_eq_None_iff not_Some_eq)
    then have "(n, c) \<in> set df" by (rule map_of_SomeD)
    then have "is_numeric c" using assms(1) by (auto simp: list_all_iff)
    then show "(case map_of df n of Some (NumCol xs) \<Rightarrow> True | _ \<Rightarrow> False)"
      using c by (cases c) simp_all
  qed
  then show ?thesis by (simp add: numeric_in_def list_all_iff)
qed

subsection \<open>Claims on validation and correction\<close>


text \<open>
  C9. With \<open>covars\<close> left at its default \<^verbatim>\<open>None\<close>, \<^verbatim>\<open>corrmat_from_regionalmeasures\<close>
  raises the \<^verbatim>\<open>TypeError\<close> of the list concatenation \<^verbatim>\<open>names+covars\<close>, whatever the
  frame, the names and the method are: no validation and no computation is reached, and no
  matrix is produced.
\<close>

theorem corrmat_default_covars_raises:
  "corrmat_from_regionalmeasures solve pd_corr regional_measures names None method
     = Inl (TypeError concat_error)"
  by (simp add: corrmat_from_regionalmeasures_def create_residuals_df_def bind_def)



text \<open>
  C1. Requested columns that are not numeric are to be reported by a \<^verbatim>\<open>TypeError\<close>
  naming all of them. With two such columns the test \<^verbatim>\<open>if non_numeric_cols:\<close> itself
  raises: the result is numpy's \<^verbatim>\<open>ValueError\<close> on the truth value of an array, and the
  \<^verbatim>\<open>TypeError\<close> with the joined names is not reached.
\<close>

theorem create_residuals_df_two_non_numeric:
  "create_residuals_df solve
     [(''a'', NumCol [1, 2]), (''site'', ObjCol [Str ''x'', Str ''y'']),
      (''sex'', ObjCol [Str ''M'', Str ''F''])]
     [''a''] (Some [''site'', ''sex''])
   = Inl (ValueError ''The truth value of an array with more than one element is ambiguous. Use a.any() or a.all()'')"
  by (simp add: create_residuals_df_def getitem_cols_def columns_def check_numeric_def
        get_non_numeric_cols_def bind_def)

text \<open>
  C3. \<^verbatim>\<open>create_corrmat\<close> validates every column of \<open>df_res\<close>, not the selected ones:
  a non-numeric column that is not among \<open>names\<close> raises the \<^verbatim>\<open>TypeError\<close>.
\<close>

theorem create_corrmat_checks_unselected:
  "create_corrmat pd_corr
     [(''a'', NumCol [1, 2]), (''label'', ObjCol [Str ''x'', Str ''y''])] (Some [''a'']) ''pearson''
   = Inl (TypeError ''DataFrame columns label are non numeric'')"
  by (simp add: create_corrmat_def check_numeric_def get_non_numeric_cols_def bind_def
        non_numeric_message_def)

text \<open>
  C7. For a well-formed frame of numeric columns, a selection of its columns and one of
  the three methods, \<^verbatim>\<open>create_corrmat\<close> returns a square matrix over the selected
  labels that is symmetric, and whose diagonal entry is \<open>1\<close> for every column of
  nonzero variance.
\<close>

theorem create_corrmat_symmetric_unit_diagonal:
  assumes wf: "wf_frame df_res"
    and num: "list_all (\<lambda>p. is_numeric (snd p)) df_res"
    and lab: "labels = (case names of None \<Rightarrow> columns df_res | Some ns \<Rightarrow> ns)"
    and sub: "set labels \<subseteq> set (columns df_res)"
    and meth: "method = ''pearson'' \<or> method = ''spearman'' \<or> method = ''kendall''"
  shows "\<exists>M. create_corrmat pandas_corr df_res names method = Inr (labels, M)
           \<and> length M = length labels
           \<and> (\<forall>i < length labels. length (M ! i) = length labels)
           \<and> (\<forall>i < length labels. \<forall>j < length labels. M ! i ! j = M ! j ! i)
           \<and> (\<forall>i < length labels.
                 variance (the_values df_res (labels ! i)) \<noteq> 0 \<longrightarrow> M ! i ! i = Some 1)"
proof -
  obtain coef where co: "coefficient method = Some coef"
    and sym: "\<forall>x y. coef x y = coef y x"
    and diag: "\<forall>x. variance x \<noteq> 0 \<longrightarrow> coef x x = Some 1"
    using coefficient_props[OF meth] by blast
  let ?cols = "map (the_values df_res) labels"
  let ?sel = "map (\<lambda>n. (n, NumCol (the_values df_res n))) labels"
  let ?M = "map (\<lambda>x. map (coef x) ?cols) ?cols"
  have ni: "numeric_in df_res labels" using num sub by (rule all_numeric_in)
  have d: "distinct (columns df_res)" using wf by (simp add: wf_frame_def)
  have g: "getitem_cols df_res labels = Inr ?sel" using d ni by (rule getitem_cols_numeric)
  have nv: "num_values_all ?sel = Inr ?cols" by (rule num_values_all_numeric)
  have pc: "pandas_corr method ?sel = Inr ?M"
    by (simp add: pandas_corr_def nv co bind_def)
  have cs: "columns ?sel = labels" by (simp add: columns_def comp_def)
  have run: "create_corrmat pandas_corr df_res names method = Inr (labels, ?M)"
    unfolding create_corrmat_def Let_def lab[symmetric]
    by (simp add: all_numeric_check[OF num] g pc cs bind_def)
  have l1: "length ?M = length labels" by simp
  have l2: "\<forall>i < length labels. length (?M ! i) = length labels" by simp
  have s: "\<forall>i < length labels. \<forall>j < length labels. ?M ! i ! j = ?M ! j ! i"
    using sym by simp
  have dg: "\<forall>i < length labels.
                 variance (the_values df_res (labels ! i)) \<noteq> 0 \<longrightarrow> ?M ! i ! i = Some 1"
    using diag by simp
  show ?thesis by (rule exI[of _ ?M]) (intro conjI run l1 l2 s dg)
qed

theorem create_corrmat_symmetric_unit_diagonal_witness:
  "wf_frame [(''a'', NumCol [1, 2, 3]), (''b'', NumCol [2, 1, 4])]
   \<and> list_all (\<lambda>p. is_numeric (snd p)) [(''a'', NumCol [1, 2, 3]), (''b'', NumCol [2, 1, 4])]
   \<and> variance [1, 2, 3] = 1 \<and> variance [2, 1, 4] = 7 / 3
   \<and> (\<exists>M. create_corrmat pandas_corr [(''a'', NumCol [1, 2, 3]), (''b'', NumCol [2, 1, 4])] None ''pearson''
            = Inr ([''a'', ''b''], M)
          \<and> M ! 0 ! 1 = M ! 1 ! 0 \<and> M ! 0 ! 0 = Some 1 \<and> M ! 1 ! 1 = Some 1)"
proof -
  let ?df = "[(''a'', NumCol [1, 2, 3]), (''b'', NumCol [2, 1, 4])]"
  have h1: "wf_frame ?df" by (simp add: wf_frame_def columns_def nrows_def)
  have h2: "list_all (\<lambda>p. is_numeric (snd p)) ?df" by simp
  have h3: "[''a'', ''b''] = (case None :: string list option of None \<Rightarrow> columns ?df | Some ns \<Rightarrow> ns)"
    by (simp add: columns_def)
  have h4: "set [''a'', ''b''] \<subseteq> set (columns ?df)" by (simp add: columns_def)
  have h5: "''pearson'' = ''pearson'' \<or> ''pearson'' = ''spearman'' \<or> ''pearson'' = ''kendall''" by simp
  have va: "variance [1, 2, 3] = 1" by (simp add: variance_def cov_def mean_def)
  have vb: "variance [2, 1, 4] = 7 / 3" by (simp add: variance_def cov_def mean_def)
  have ta: "the_values ?df ([''a'', ''b''] ! 0) = [1, 2, 3]" by (simp add: the_values_def)
  have tb: "the_values ?df ([''a'', ''b''] ! 1) = [2, 1, 4]" by (simp add: the_values_def)
  from create_corrmat_symmetric_unit_diagonal[OF h1 h2 h3 h4 h5]
  obtain M where run: "create_corrmat pandas_corr ?df None ''pearson'' = Inr ([''a'', ''b''], M)"
    and s: "\<forall>i < length [''a'', ''b'']. \<forall>j < length [''a'', ''b'']. M ! i ! j = M ! j ! i"
    and dg: "\<forall>i < length [''a'', ''b''].
                 variance (the_values ?df ([''a'', ''b''] ! i)) \<noteq> 0 \<longrightarrow> M ! i ! i = Some 1"
    by blast
  have s01: "M ! 0 ! 1 = M ! 1 ! 0" using s by simp
  have "variance (the_values ?df ([''a'', ''b''] ! 0)) \<noteq> 0" unfolding ta va by simp
  then have d0: "M ! 0 ! 0 = Some 1" using dg by simp
  have "variance (the_values ?df ([''a'', ''b''] ! 1)) \<noteq> 0" unfolding tb vb by simp
  then have d1: "M ! 1 ! 1 = Some 1" using dg by simp
  have "\<exists>M. create_corrmat pandas_corr ?df None ''pearson'' = Inr ([''a'', ''b''], M)
          \<and> M ! 0 ! 1 = M ! 1 ! 0 \<and> M ! 0 ! 0 = Some 1 \<and> M ! 1 ! 1 = Some 1"
    by (rule exI[of _ M]) (intro conjI run s01 d0 d1)
  then show ?thesis by (intro conjI h1 h2 va vb)
qed

subsection \<open>Claims on the group partitioner\<close>

text \<open>
  C5. Without shuffling, on a well-formed frame whose group column has no missing value
  and whose distinct group values are rendered as distinct strings, \<^verbatim>\<open>split_groups\<close>
  leaves the frame as it is and returns one subset per distinct value \<open>v\<close>, keyed
  \<^verbatim>\<open>{group_var}_{v}\<close>; the subset of \<open>v\<close> holds exactly the rows whose group value is
  \<open>v\<close>, every row is selected by the mask of exactly one value, and the row counts of the
  subsets add up to the row count of the frame.
\<close>

theorem split_groups_partition:
  assumes wf: "wf_frame df" and c: "map_of df g = Some c"
    and nonan: "NaN \<notin> set (col_values c)"
    and inj: "inj_on (py_format fmt) (set (col_values c))"
  shows "\<exists>d. split_groups fmt rng df g False = Inr (df, d)
     \<and> map fst d = map (format_key fmt g) (remdups (col_values c))
     \<and> distinct (map fst d)
     \<and> (\<forall>v \<in> set (col_values c).
           map_of d (format_key fmt g v) = Some (loc_rows (map (\<lambda>u. u = v) (col_values c)) df))
     \<and> (\<forall>i < nrows df. \<exists>!v. v \<in> set (col_values c) \<and> eq_mask c v ! i)
     \<and> sum_list (map (\<lambda>p. nrows (snd p)) d) = nrows df"
proof -
  let ?vs = "remdups (col_values c)"
  let ?k = "format_key fmt g"
  let ?f = "\<lambda>v. loc_rows (eq_mask c v) df"
  let ?d = "map (\<lambda>v. (?k v, ?f v)) ?vs"
  have injk: "inj_on ?k (set ?vs)" using inj by (simp add: inj_on_format_key)
  have dk: "distinct (map ?k ?vs)" using injk by (simp add: distinct_map)
  have part: "partition_by fmt df g c = ?d"
    unfolding partition_by_def using fold_update_distinct[OF dk, of "[]" ?f] by simp
  have run: "split_groups fmt rng df g False = Inr (df, ?d)"
    using c part by (simp add: split_groups_def bind_def loc_col_def)
  have keys: "map fst ?d = map ?k ?vs" by (simp add: comp_def)
  have mem: "(g, c) \<in> set df" using c by (rule map_of_SomeD)
  then have dfne: "df \<noteq> []" by auto
  have len: "length (col_values c) = nrows df"
    using wf mem by (auto simp: wf_frame_def list_all_iff col_len_values)
  have look: "\<forall>v \<in> set (col_values c).
           map_of ?d (?k v) = Some (loc_rows (map (\<lambda>u. u = v) (col_values c)) df)"
  proof
    fix v assume v: "v \<in> set (col_values c)"
    then have "map_of ?d (?k v) = Some (?f v)" using map_of_keyed[OF injk, of v ?f] by simp
    then show "map_of ?d (?k v) = Some (loc_rows (map (\<lambda>u. u = v) (col_values c)) df)"
      using eq_mask_plain[OF nonan v] by simp
  qed
  have ex1: "\<forall>i < nrows df. \<exists>!v. v \<in> set (col_values c) \<and> eq_mask c v ! i"
  proof (intro allI impI)
    fix i assume i: "i < nrows df"
    then have m: "col_values c ! i \<in> set (col_values c)" using len by simp
    then have nn: "col_values c ! i \<noteq> NaN" using nonan by metis
    show "\<exists>!v. v \<in> set (col_values c) \<and> eq_mask c v ! i"
    proof (rule ex1I[of _ "col_values c ! i"])
      show "col_values c ! i \<in> set (col_values c) \<and> eq_mask c (col_values c ! i) ! i"
        using m nn i len by (simp add: eq_mask_def cell_eq_def)
    next
      fix v assume "v \<in> set (col_values c) \<and> eq_mask c v ! i"
      then show "v = col_values c ! i" using i len by (simp add: eq_mask_def cell_eq_def)
    qed
  qed
  have each: "\<And>v. v \<in> set ?vs \<Longrightarrow> nrows (?f v) = length (filter (\<lambda>u. u = v) (col_values c))"
  proof -
    fix v assume "v \<in> set ?vs"
    then have v: "v \<in> set (col_values c)" by simp
    have "nrows (?f v) = length (filter id (eq_mask c v))"
      using dfne len by (intro nrows_loc_rows) (simp_all add: eq_mask_def)
    then show "nrows (?f v) = length (filter (\<lambda>u. u = v) (col_values c))"
      by (simp add: eq_mask_plain[OF nonan v] length_filter_id_map)
  qed
  have "map (\<lambda>v. nrows (?f v)) ?vs
          = map (\<lambda>v. length (filter (\<lambda>u. u = v) (col_values c))) ?vs"
    by (rule map_cong[OF refl]) (rule each)
  moreover have "map (\<lambda>p. nrows (snd p)) ?d = map (\<lambda>v. nrows (?f v)) ?vs"
    by (simp add: comp_def)
  ultimately have total: "sum_list (map (\<lambda>p. nrows (snd p)) ?d) = nrows df"
    by (simp only: sum_counts len)
  have dd: "distinct (map fst ?d)" using dk by (simp only: keys)
  show ?thesis by (rule exI[of _ ?d]) (intro conjI run keys dd look ex1 total)
qed

theorem split_groups_partition_witness:
  "wf_frame [(''group'', ObjCol [Str ''A'', Str ''A'', Str ''B'', Str ''B'', Str ''B'']),
             (''x'', NumCol [1, 2, 3, 4, 5])]
   \<and> NaN \<notin> set (col_values (ObjCol [Str ''A'', Str ''A'', Str ''B'', Str ''B'', Str ''B'']))
   \<and> inj_on (py_format format_whole)
         (set (col_values (ObjCol [Str ''A'', Str ''A'', Str ''B'', Str ''B'', Str ''B''])))
   \<and> (\<exists>d. split_groups format_whole []
              [(''group'', ObjCol [Str ''A'', Str ''A'', Str ''B'', Str ''B'', Str ''B'']),
               (''x'', NumCol [1, 2, 3, 4, 5])] ''group'' False
            = Inr ([(''group'', ObjCol [Str ''A'', Str ''A'', Str ''B'', Str ''B'', Str ''B'']),
                    (''x'', NumCol [1, 2, 3, 4, 5])], d)
          \<and> map fst d = [''group_A'', ''group_B'']
          \<and> map_of d ''group_A'' = Some [(''group'', ObjCol [Str ''A'', Str ''A'']), (''x'', NumCol [1, 2])]
          \<and> map_of d ''group_B''
              = Some [(''group'', ObjCol [Str ''B'', Str ''B'', Str ''B'']), (''x'', NumCol [3, 4, 5])]
          \<and> sum_list (map (\<lambda>p. nrows (snd p)) d) = 5)"
proof -
  let ?c = "ObjCol [Str ''A'', Str ''A'', Str ''B'', Str ''B'', Str ''B'']"
  let ?df = "[(''group'', ?c), (''x'', NumCol [1, 2, 3, 4, 5])]"
  have h1: "wf_frame ?df" by (simp add: wf_frame_def columns_def nrows_def)
  have h2: "map_of ?df ''group'' = Some ?c" by simp
  have h3: "NaN \<notin> set (col_values ?c)" by simp
  have h4: "inj_on (py_format format_whole) (set (col_values ?c))" by simp
  from split_groups_partition[OF h1 h2 h3 h4, of "[]"]
  obtain d where run: "split_groups format_whole [] ?df ''group'' False = Inr (?df, d)"
    and keys: "map fst d = map (format_key format_whole ''group'') (remdups (col_values ?c))"
    and look: "\<forall>v \<in> set (col_values ?c).
           map_of d (format_key format_whole ''group'' v)
             = Some (loc_rows (map (\<lambda>u. u = v) (col_values ?c)) ?df)"
    and total: "sum_list (map (\<lambda>p. nrows (snd p)) d) = nrows ?df"
    by blast
  have k: "map fst d = [''group_A'', ''group_B'']"
    using keys by (simp add: format_key_def)
  have a: "map_of d ''group_A'' = Some [(''group'', ObjCol [Str ''A'', Str ''A'']), (''x'', NumCol [1, 2])]"
    using look by (simp add: format_key_def loc_rows_def select_def)
  have b: "map_of d ''group_B''
      = Some [(''group'', ObjCol [Str ''B'', Str ''B'', Str ''B'']), (''x'', NumCol [3, 4, 5])]"
    using look by (simp add: format_key_def loc_rows_def select_def)
  have t: "sum_list (map (\<lambda>p. nrows (snd p)) d) = 5"
    using total by (simp add: nrows_def)
  have "\<exists>d. split_groups format_whole [] ?df ''group'' False = Inr (?df, d)
          \<and> map fst d = [''group_A'', ''group_B'']
          \<and> map_of d ''group_A'' = Some [(''group'', ObjCol [Str ''A'', Str ''A'']), (''x'', NumCol [1, 2])]
          \<and> map_of d ''group_B''
              = Some [(''group'', ObjCol [Str ''B'', Str ''B'', Str ''B'']), (''x'', NumCol [3, 4, 5])]
          \<and> sum_list (map (\<lambda>p. nrows (snd p)) d) = 5"
    by (rule exI[of _ d]) (intro conjI run k a b t)
  then show ?thesis by (intro conjI h1 h3 h4)
qed

text \<open>
  As stated for every dataset the claim fails in two ways, one for each condition above.
  In the first frame a group value is missing: that row is equal to no value, so it is in
  no subset. In the second frame the column of objects holds the number \<open>1\<close> and the
  string \<^verbatim>\<open>1\<close>, two values with one rendering: both are stored under the key
  \<^verbatim>\<open>group_1\<close>, the dictionary keeps one subset for two values, and the other row is in
  no subset (which of the two rows is kept follows the order of iteration).
\<close>

theorem split_groups_partition_counterexample:
  "split_groups format_whole [] [(''group'', ObjCol [Str ''A'', NaN]), (''x'', NumCol [1, 2])] ''group'' False
     = Inr ([(''group'', ObjCol [Str ''A'', NaN]), (''x'', NumCol [1, 2])],
            [(''group_A'', [(''group'', ObjCol [Str ''A'']), (''x'', NumCol [1])]),
             (''group_nan'', [(''group'', ObjCol []), (''x'', NumCol [])])])
   \<and> split_groups format_whole [] [(''group'', ObjCol [Num 1, Str ''1'']), (''x'', NumCol [1, 2])] ''group'' False
     = Inr ([(''group'', ObjCol [Num 1, Str ''1'']), (''x'', NumCol [1, 2])],
            [(''group_1'', [(''group'', ObjCol [Str ''1'']), (''x'', NumCol [2])])])"
  by (simp add: split_groups_def bind_def loc_col_def partition_by_def eq_mask_def cell_eq_def
        loc_rows_def select_def format_key_def format_whole_def format_int_def format_nat.simps
        digit_char_def)

text \<open>
  C8. With shuffling, when the generator's draw is a permutation of the row positions,
  the column \<^verbatim>\<open>{group_var}_rand\<close> that \<^verbatim>\<open>split_groups\<close> stores and partitions by holds
  the same multiset of values as the group column: every value occurs in it as often as
  in the original.
\<close>

theorem split_groups_shuffle_preserves_values:
  assumes c: "map_of df g = Some c" and p: "is_permutation rng (col_len c)"
  shows "\<exists>df' c'. split_groups fmt rng df g True = Inr (df', partition_by fmt df' (g @ ''_rand'') c')
           \<and> map_of df' (g @ ''_rand'') = Some c'
           \<and> mset (col_values c') = mset (col_values c)
           \<and> (\<forall>v. count_list (col_values c') v = count_list (col_values c) v)"
proof -
  let ?gr = "g @ ''_rand''"
  let ?c' = "permutation_col rng c"
  let ?df' = "setitem df ?gr ?c'"
  have ms: "mset rng = mset [0..<col_len c]"
    using p by (metis is_permutation_def mset_sort)
  have vals: "mset (col_values ?c') = mset (col_values c)"
  proof (cases c)
    case (NumCol xs)
    have "mset (permutation rng xs) = mset xs"
      by (rule mset_permutation) (use ms NumCol in simp)
    then show ?thesis using NumCol by simp
  next
    case (ObjCol cs)
    have "mset (permutation rng cs) = mset cs"
      by (rule mset_permutation) (use ms ObjCol in simp)
    then show ?thesis using ObjCol by simp
  qed
  have look: "map_of ?df' ?gr = Some ?c'"
  proof (cases "?gr \<in> set (columns df)")
    case True
    then have "map_of (map (\<lambda>p. if fst p = ?gr then (?gr, ?c') else p) df) ?gr = Some ?c'"
      unfolding columns_def by (induction df) auto
    then show ?thesis using True by (simp add: setitem_def)
  next
    case False
    then have "map_of df ?gr = None" by (simp add: columns_def map_of_eq_None_iff)
    then show ?thesis using False by (simp add: setitem_def map_add_def)
  qed
  have incol: "?gr \<in> set (columns ?df')"
    using look by (auto simp: columns_def dest!: map_of_SomeD intro: rev_image_eqI)
  have run: "split_groups fmt rng df g True = Inr (?df', partition_by fmt ?df' ?gr ?c')"
    using c look incol by (simp add: split_groups_def bind_def loc_col_def drop_columns_def)
  have cnt: "\<forall>v. count_list (col_values ?c') v = count_list (col_values c) v"
    using vals by (metis count_mset)
  show ?thesis using run look vals cnt by blast
qed

theorem split_groups_shuffle_preserves_values_witness:
  "is_permutation [2, 0, 1] (col_len (ObjCol [Str ''A'', Str ''B'', Str ''B'']))
   \<and> (\<exists>df' c'. split_groups format_whole [2, 0, 1]
                   [(''group'', ObjCol [Str ''A'', Str ''B'', Str ''B'']), (''x'', NumCol [1, 2, 3])]
                   ''group'' True
                 = Inr (df', partition_by format_whole df' ''group_rand'' c')
          \<and> map_of df' ''group_rand'' = Some c'
          \<and> mset (col_values c') = mset [Str ''A'', Str ''B'', Str ''B''])"
proof -
  let ?c = "ObjCol [Str ''A'', Str ''B'', Str ''B'']"
  let ?df = "[(''group'', ?c), (''x'', NumCol [1, 2, 3])]"
  have h1: "map_of ?df ''group'' = Some ?c" by simp
  have "[0..<3] = [0, 1, 2]" by code_simp
  then have h2: "is_permutation [2, 0, 1] (col_len ?c)" by (simp add: is_permutation_def)
  from split_groups_shuffle_preserves_values[OF h1 h2, of format_whole]
  have "\<exists>df' c'. split_groups format_whole [2, 0, 1] ?df ''group'' True
                 = Inr (df', partition_by format_whole df' ''group_rand'' c')
          \<and> map_of df' ''group_rand'' = Some c'
          \<and> mset (col_values c') = mset [Str ''A'', Str ''B'', Str ''B'']"
    by auto
  then show ?thesis using h2 by blast
qed

text \<open>
  C2. The shuffled column is to be added to a working copy and dropped again, so that the
  caller's frame is unchanged. \<^verbatim>\<open>split_groups\<close> assigns the column to the caller's frame,
  and \<^verbatim>\<open>df.drop(columns=[group_rand])\<close>, whose result is discarded, removes nothing: the
  caller's frame leaves the call with the extra column.
\<close>

theorem split_groups_shuffle_changes_frame:
  "split_groups format_whole [1, 0] [(''group'', ObjCol [Str ''A'', Str ''B'']), (''x'', NumCol [1, 2])] ''group'' True
     = Inr ([(''group'', ObjCol [Str ''A'', Str ''B'']), (''x'', NumCol [1, 2]),
             (''group_rand'', ObjCol [Str ''B'', Str ''A''])],
            [(''group_rand_B'', [(''group'', ObjCol [Str ''A'']), (''x'', NumCol [1]),
                                 (''group_rand'', ObjCol [Str ''B''])]),
             (''group_rand_A'', [(''group'', ObjCol [Str ''B'']), (''x'', NumCol [2]),
                                 (''group_rand'', ObjCol [Str ''A''])])])"
  by (simp add: split_groups_def bind_def loc_col_def partition_by_def eq_mask_def cell_eq_def
        loc_rows_def select_def format_key_def setitem_def columns_def permutation_def drop_columns_def)

subsection \<open>Claims on matrix persistence\<close>

text \<open>
  C10. For a destination without a directory part (no \<^verbatim>\<open>/\<close> in the name), whatever the
  matrix and the file system are, \<^verbatim>\<open>os.path.dirname\<close> gives the empty path, which is
  not a directory, so \<^verbatim>\<open>save_mat\<close> calls \<^verbatim>\<open>os.makedirs\<close> on it; that raises, and
  \<^verbatim>\<open>save_mat\<close> ends with this error and has written nothing, although the current
  directory exists.
\<close>

theorem save_mat_bare_filename:
  assumes "CHR ''/'' \<notin> set name"
  shows "os_path_dirname name = []
       \<and> \<not> os_path_isdir fs (os_path_dirname name)
       \<and> os_makedirs fs (os_path_dirname name) = (Some (FileNotFoundError []), fs)
       \<and> save_mat fs M name = (Some (FileNotFoundError []), fs)
       \<and> isdir_key fs (cwd fs)"
  using dirname_bare[OF assms]
  by (simp add: save_mat_def os_path_isdir_def lookup_def makedirs_empty isdir_key_def)

theorem save_mat_bare_filename_witness:
  "CHR ''/'' \<notin> set ''m.txt''
   \<and> save_mat \<lparr>cwd = [''home''], dirs = [], files = []\<rparr> [[1, 1 / 2], [1 / 2, 1]] ''m.txt''
       = (Some (FileNotFoundError []), \<lparr>cwd = [''home''], dirs = [], files = []\<rparr>)"
proof -
  have h: "CHR ''/'' \<notin> set ''m.txt''" by simp
  from save_mat_bare_filename[OF h, of "\<lparr>cwd = [''home''], dirs = [], files = []\<rparr>" "[[1, 1 / 2], [1 / 2, 1]]"]
  have "save_mat \<lparr>cwd = [''home''], dirs = [], files = []\<rparr> [[1, 1 / 2], [1 / 2, 1]] ''m.txt''
       = (Some (FileNotFoundError []), \<lparr>cwd = [''home''], dirs = [], files = []\<rparr>)"
    by (elim conjE)
  then show ?thesis using h by (intro conjI)
qed

text \<open>
  C6. \<^verbatim>\<open>save_mat\<close> is to create the directories that are missing and to write the matrix
  as lines of tab-separated numbers with five fractional digits. On the example of the
  claim it does: from a file system without \<^verbatim>\<open>out\<close> it makes \<^verbatim>\<open>out\<close> and
  \<^verbatim>\<open>out/subdir\<close> and writes the two lines, each ended by a newline. On the destination
  \<^verbatim>\<open>m.txt\<close>, whose directory is the current one and is missing nothing, it raises the
  error of \<^verbatim>\<open>os.makedirs\<close> on the empty path and writes nothing, on every file system.
\<close>

theorem save_mat_example_and_bare_name:
  "save_mat \<lparr>cwd = [''home''], dirs = [], files = []\<rparr> [[1, 1 / 2], [1 / 2, 1]] ''out/subdir/m.txt''
     = (None, \<lparr>cwd = [''home''],
               dirs = [[''home'', ''out''], [''home'', ''out'', ''subdir'']],
               files = [([''home'', ''out'', ''subdir'', ''m.txt''],
                         Plain (''1.00000'' @ tab @ ''0.50000'' @ newline
                                @ ''0.50000'' @ tab @ ''1.00000'' @ newline))]\<rparr>)
   \<and> save_mat fs [[1, 1 / 2], [1 / 2, 1]] ''m.txt'' = (Some (FileNotFoundError []), fs)"
proof
  have d: "os_path_dirname ''out/subdir/m.txt'' = ''out/subdir''"
    by (simp add: os_path_dirname_def rstrip_def)
  have n: "\<not> os_path_isdir \<lparr>cwd = [''home''], dirs = [], files = []\<rparr> ''out/subdir''"
    by (simp add: os_path_isdir_def lookup_def start_def components_def step_def isdir_key_def
          isfile_key_def)
  have w: "np_savetxt \<lparr>cwd = [''home''], dirs = [[''home'', ''out''], [''home'', ''out'', ''subdir'']], files = []\<rparr>
              ''out/subdir/m.txt'' [[1, 1 / 2], [1 / 2, 1]]
     = (None, \<lparr>cwd = [''home''],
               dirs = [[''home'', ''out''], [''home'', ''out'', ''subdir'']],
               files = [([''home'', ''out'', ''subdir'', ''m.txt''],
                         Plain (savetxt_text [[1, 1 / 2], [1 / 2, 1]]))]\<rparr>)"
    by (simp add: np_savetxt_def open_w_def compressed_name_def ends_with_def start_def
          components_def step_def isdir_key_def isfile_key_def)
  show "save_mat \<lparr>cwd = [''home''], dirs = [], files = []\<rparr> [[1, 1 / 2], [1 / 2, 1]] ''out/subdir/m.txt''
     = (None, \<lparr>cwd = [''home''],
               dirs = [[''home'', ''out''], [''home'', ''out'', ''subdir'']],
               files = [([''home'', ''out'', ''subdir'', ''m.txt''],
                         Plain (''1.00000'' @ tab @ ''0.50000'' @ newline
                                @ ''0.50000'' @ tab @ ''1.00000'' @ newline))]\<rparr>)"
    unfolding save_mat_def Let_def d by (simp add: n example_dirs w example_text)
next
  have d: "os_path_dirname ''m.txt'' = []" by (simp add: os_path_dirname_def)
  show "save_mat fs [[1, 1 / 2], [1 / 2, 1]] ''m.txt'' = (Some (FileNotFoundError []), fs)"
    unfolding save_mat_def Let_def d
    by (simp add: os_path_isdir_def lookup_def makedirs_empty)
qed

end
